theory Spec2Isabelle
  imports Complex_Main
begin

section \<open>The table-of-contents component (src/components/TableOfContents.vue)\<close>

text \<open>
  A shallow embedding of the script part of the component. The three reactive
  references (\<open>headings\<close>, \<open>activeId\<close>, \<open>isVisible\<close>), the part of the DOM the
  functions read and write, and the part of the browser window they use are fields
  of one state record; every function of the source takes the state and returns the
  new one.

  Strings are lists of \<^typ>\<open>char\<close>, read as code units below 256. Pixel positions
  the DOM gives as \<open>double\<close> (\<open>scrollY\<close>, the top of a bounding rectangle) are
  \<^typ>\<open>real\<close>; \<open>offsetTop\<close>, a \<open>long\<close> in the DOM, is \<^typ>\<open>int\<close>.
\<close>

subsection \<open>Data\<close>

text \<open>A JavaScript number as far as the component needs it: a value or \<open>NaN\<close>.\<close>

datatype number = Num int | NaN

text \<open>\<open>interface Heading { id: string; text: string; level: number }\<close>\<close>

record Heading =
  id_h :: string
  text_h :: string
  level :: number

text \<open>
  An element of the page, with the properties the component reads: \<open>id\<close> (the empty
  string when the attribute is missing), \<open>tagName\<close> (upper case in an HTML document),
  \<open>textContent\<close>, \<open>offsetTop\<close> and \<open>getBoundingClientRect().top\<close>.
\<close>

record element =
  id_el :: string
  tagName :: string
  textContent :: string
  offsetTop :: int
  rectTop :: real

text \<open>
  The document in tree order, split at the first element matching \<open>article.prose\<close>:
  the elements up to and including that article, the descendants of the article
  (\<open>None\<close> when no element matches the selector), and the elements after it.
\<close>

record document =
  preceding :: "element list"
  article :: "element list option"
  following :: "element list"

text \<open>
  The component's references, the document, and the window: the scroll offset, the
  target of the last smooth scroll asked for with \<open>window.scrollTo\<close>, and the URLs
  given to \<open>history.pushState\<close>, newest first.
\<close>

record state =
  headings :: "Heading list"
  activeId :: string
  isVisible :: bool
  doc :: document
  scrollY :: real
  smoothScrollTarget :: "real option"
  history :: "string list"

text \<open>\<open>window.pageYOffset\<close> is an alias of \<open>window.scrollY\<close>.\<close>

definition pageYOffset :: "state \<Rightarrow> real" where
  "pageYOffset s = scrollY s"

subsection \<open>Strings\<close>

text \<open>\<open>\w\<close> of a regular expression: \<open>[A-Za-z0-9_]\<close>.\<close>

definition isWordChar :: "char \<Rightarrow> bool" where
  "isWordChar c = (let n = (of_char c :: nat) in
     (48 \<le> n \<and> n \<le> 57) \<or> (65 \<le> n \<and> n \<le> 90) \<or> n = 95 \<or> (97 \<le> n \<and> n \<le> 122))"

text \<open>
  \<open>\s\<close> of a regular expression, which is also what \<open>trim\<close> removes: tab, line feed,
  vertical tab, form feed, carriage return, space and the no-break space.
\<close>

definition isWhiteSpace :: "char \<Rightarrow> bool" where
  "isWhiteSpace c = (let n = (of_char c :: nat) in (9 \<le> n \<and> n \<le> 13) \<or> n = 32 \<or> n = 160)"

text \<open>
  \<open>toLowerCase\<close> on one code unit: \<open>A\<close> to \<open>Z\<close>, and the capital letters of the
  Latin-1 block (\<open>0xC0\<close> to \<open>0xDE\<close> without the multiplication sign \<open>0xD7\<close>), move up
  by 32.
\<close>

definition toLowerCase_char :: "char \<Rightarrow> char" where
  "toLowerCase_char c = (let n = (of_char c :: nat) in
     if (65 \<le> n \<and> n \<le> 90) \<or> (192 \<le> n \<and> n \<le> 222 \<and> n \<noteq> 215)
     then char_of (n + 32) else c)"

definition toLowerCase :: "string \<Rightarrow> string" where
  "toLowerCase t = map toLowerCase_char t"

text \<open>\<open>.replace(/[^\w\s-]/g, '')\<close>: every character outside the class is deleted.\<close>

definition stripSymbols :: "string \<Rightarrow> string" where
  "stripSymbols t = filter (\<lambda>c. isWordChar c \<or> isWhiteSpace c \<or> c = CHR ''-'') t"

text \<open>
  \<open>.replace(/p+/g, '-')\<close> for a character class \<open>p\<close>: every maximal run of
  characters of the class becomes one hyphen.
\<close>

function replaceRuns :: "(char \<Rightarrow> bool) \<Rightarrow> string \<Rightarrow> string" where
  "replaceRuns p [] = []"
| "replaceRuns p (c # cs) =
     (if p c then CHR ''-'' # replaceRuns p (dropWhile p cs) else c # replaceRuns p cs)"
  by pat_completeness auto
termination
  by (relation "measure (\<lambda>(p, cs). length cs)") (auto simp: less_Suc_eq_le length_dropWhile_le)

text \<open>\<open>.trim()\<close>: white space is removed at both ends.\<close>

definition trim :: "string \<Rightarrow> string" where
  "trim t = rev (dropWhile isWhiteSpace (rev (dropWhile isWhiteSpace t)))"

definition generateId :: "string \<Rightarrow> string" where
  "generateId t =
     trim (replaceRuns (\<lambda>c. c = CHR ''-'')
       (replaceRuns isWhiteSpace
         (stripSymbols
           (toLowerCase t))))"

text \<open>\<open>a || b\<close> on strings: the empty string is falsy.\<close>

definition or_else :: "string \<Rightarrow> string \<Rightarrow> string" where
  "or_else a b = (if a = [] then b else a)"

text \<open>\<open>t.charAt(i)\<close>: the code unit at \<open>i\<close> as a string, the empty string out of range.\<close>

definition charAt :: "string \<Rightarrow> nat \<Rightarrow> string" where
  "charAt t i = (if i < length t then [t ! i] else [])"

text \<open>
  \<open>Number.parseInt\<close> on the strings \<open>charAt\<close> returns, which hold one code unit at
  most: a decimal digit is its value, everything else is \<open>NaN\<close>.
\<close>

definition parseInt :: "string \<Rightarrow> number" where
  "parseInt t =
     (case t of
        [c] \<Rightarrow> (let n = (of_char c :: nat) in
                 if 48 \<le> n \<and> n \<le> 57 then Num (int n - 48) else NaN)
      | _ \<Rightarrow> NaN)"

subsection \<open>Queries on the document\<close>

text \<open>\<open>querySelectorAll('h2, h3, h4')\<close> on the article: its matching descendants, in tree order.\<close>

definition matches_h2_h3_h4 :: "element \<Rightarrow> bool" where
  "matches_h2_h3_h4 el = (tagName el = ''H2'' \<or> tagName el = ''H3'' \<or> tagName el = ''H4'')"

definition querySelectorAll :: "element list \<Rightarrow> element list" where
  "querySelectorAll els = filter matches_h2_h3_h4 els"

text \<open>
  \<open>document.getElementById\<close>: the first element in tree order whose id is the given
  one; an empty id attribute is no id, so the empty string finds nothing.
\<close>

definition all_elements :: "document \<Rightarrow> element list" where
  "all_elements d =
     preceding d @ (case article d of None \<Rightarrow> [] | Some els \<Rightarrow> els) @ following d"

definition getElementById :: "document \<Rightarrow> string \<Rightarrow> element option" where
  "getElementById d i = (if i = [] then None else find (\<lambda>el. id_el el = i) (all_elements d))"

subsection \<open>extractHeadings\<close>

text \<open>
  The body of the \<open>forEach\<close> callback on one heading element: the identifier is the
  element's own or a generated one, the element takes it when it has none, and an
  entry is pushed.
\<close>

definition resolveId :: "element \<Rightarrow> string" where
  "resolveId el = or_else (id_el el) (generateId (or_else (textContent el) []))"

definition assignId :: "element \<Rightarrow> element" where
  "assignId el = (if id_el el = [] then el\<lparr>id_el := resolveId el\<rparr> else el)"

definition entry :: "element \<Rightarrow> Heading" where
  "entry el =
     \<lparr>id_h = resolveId el,
      text_h = or_else (textContent el) [],
      level = parseInt (charAt (tagName el) 1)\<rparr>"

text \<open>
  The loop over the article's descendants: an element the selector matches is
  visited by the callback, the others are left as they are. The result is the
  descendants after the loop and the list \<open>extracted\<close>.
\<close>

fun forEach_heading :: "element list \<Rightarrow> Heading list \<Rightarrow> element list \<times> Heading list" where
  "forEach_heading [] extracted = ([], extracted)"
| "forEach_heading (el # els) extracted =
     (if matches_h2_h3_h4 el
      then (let (els', extracted') = forEach_heading els (extracted @ [entry el])
            in (assignId el # els', extracted'))
      else (let (els', extracted') = forEach_heading els extracted
            in (el # els', extracted')))"

definition extractHeadings :: "state \<Rightarrow> state" where
  "extractHeadings s =
     (case article (doc s) of
        None \<Rightarrow> s
      | Some els \<Rightarrow>
          (let (els', extracted) = forEach_heading els []
           in s\<lparr>doc := (doc s)\<lparr>article := Some els'\<rparr>, headings := extracted\<rparr>))"

subsection \<open>scrollToHeading\<close>

definition offset :: real where
  "offset = 100"

definition scrollToHeading :: "state \<Rightarrow> string \<Rightarrow> state" where
  "scrollToHeading s i =
     (case getElementById (doc s) i of
        None \<Rightarrow> s
      | Some el \<Rightarrow>
          (let elementPosition = rectTop el;
               offsetPosition = elementPosition + pageYOffset s - offset
           in s\<lparr>smoothScrollTarget := Some offsetPosition,
                history := (''#'' @ i) # history s,
                activeId := i\<rparr>))"

subsection \<open>updateActiveHeading\<close>

definition scrollPosition :: "state \<Rightarrow> real" where
  "scrollPosition s = scrollY s + 150"

text \<open>
  The loop \<open>for (let i = headingElements.length - 1; i >= 0; i--)\<close>; the argument
  \<open>k\<close> is \<open>i + 1\<close>, so \<open>0\<close> is the exit with \<open>currentActive\<close> still empty.
\<close>

fun scanBack :: "element list \<Rightarrow> real \<Rightarrow> nat \<Rightarrow> string" where
  "scanBack headingElements sp 0 = []"
| "scanBack headingElements sp (Suc i) =
     (if real_of_int (offsetTop (headingElements ! i)) \<le> sp
      then id_el (headingElements ! i)
      else scanBack headingElements sp i)"

definition updateActiveHeading :: "state \<Rightarrow> state" where
  "updateActiveHeading s =
     (case article (doc s) of
        None \<Rightarrow> s
      | Some els \<Rightarrow>
          (let headingElements = querySelectorAll els;
               currentActive = scanBack headingElements (scrollPosition s) (length headingElements)
           in s\<lparr>activeId := currentActive\<rparr>))"

subsection \<open>handleScroll and the life cycle\<close>

definition handleScroll :: "state \<Rightarrow> state" where
  "handleScroll s =
     (let s1 = updateActiveHeading s
      in case headings s1 of
           [] \<Rightarrow> s1
         | firstHeading # _ \<Rightarrow>
             (case getElementById (doc s1) (id_h firstHeading) of
                None \<Rightarrow> s1
              | Some el \<Rightarrow> s1\<lparr>isVisible := (scrollY s1 > real_of_int (offsetTop el) - 200)\<rparr>))"

text \<open>
  The state when the script is set up (empty list, empty string, \<open>false\<close>) on a given
  page, and \<open>onMounted\<close>: extraction, then the first \<open>handleScroll\<close>.
\<close>

definition initial :: "document \<Rightarrow> real \<Rightarrow> string list \<Rightarrow> state" where
  "initial d y h =
     \<lparr>headings = [], activeId = [], isVisible = False,
      doc = d, scrollY = y, smoothScrollTarget = None, history = h\<rparr>"

definition onMounted :: "state \<Rightarrow> state" where
  "onMounted s = handleScroll (extractHeadings s)"

text \<open>
  What happens to a mounted component: a scroll event after the viewport moved to an
  offset, a resize event, a click on the \<open>n\<close>-th link of the rendered list (there is
  one link for each entry of \<open>headings\<close>), and a change of the document by the page.
\<close>

datatype event = Scroll real | Resize | Click nat | DomChange document

fun dispatch :: "state \<Rightarrow> event \<Rightarrow> state" where
  "dispatch s (Scroll y) = handleScroll (s\<lparr>scrollY := y\<rparr>)"
| "dispatch s Resize = handleScroll s"
| "dispatch s (Click n) =
     (if n < length (headings s) then scrollToHeading s (id_h (headings s ! n)) else s)"
| "dispatch s (DomChange d) = s\<lparr>doc := d\<rparr>"

fun run :: "state \<Rightarrow> event list \<Rightarrow> state" where
  "run s [] = s"
| "run s (e # es) = run (dispatch s e) es"

subsection \<open>Example pages\<close>

text \<open>
  A page whose article holds a title and the headings \<open>Intro\<close> (h2), \<open>Setup\<close> (h3)
  and \<open>Usage\<close> (h2), none with an id, with a paragraph in between.
\<close>

definition el_body :: element where
  "el_body = \<lparr>id_el = [], tagName = ''BODY'', textContent = [], offsetTop = 0, rectTop = 0\<rparr>"

definition el_title :: element where
  "el_title = \<lparr>id_el = [], tagName = ''H1'', textContent = ''Notes'', offsetTop = 40, rectTop = 40\<rparr>"

definition el_intro :: element where
  "el_intro = \<lparr>id_el = [], tagName = ''H2'', textContent = ''Intro'', offsetTop = 120, rectTop = 120\<rparr>"

definition el_para :: element where
  "el_para = \<lparr>id_el = [], tagName = ''P'', textContent = ''Text'', offsetTop = 160, rectTop = 160\<rparr>"

definition el_setup :: element where
  "el_setup = \<lparr>id_el = [], tagName = ''H3'', textContent = ''Setup'', offsetTop = 400, rectTop = 400\<rparr>"

definition el_usage :: element where
  "el_usage = \<lparr>id_el = [], tagName = ''H2'', textContent = ''Usage'', offsetTop = 900, rectTop = 900\<rparr>"

definition page_example :: document where
  "page_example =
     \<lparr>preceding = [el_body],
      article = Some [el_title, el_intro, el_para, el_setup, el_usage],
      following = []\<rparr>"

text \<open>A page without the article, and a page whose article has no heading of level 2 to 4.\<close>

definition page_no_article :: document where
  "page_no_article = \<lparr>preceding = [el_body, el_title, el_para], article = None, following = []\<rparr>"

definition page_no_headings :: document where
  "page_no_headings = \<lparr>preceding = [el_body], article = Some [el_title, el_para], following = []\<rparr>"

text \<open>A page with two headings of the same text and no id.\<close>

definition el_overview :: element where
  "el_overview =
     \<lparr>id_el = [], tagName = ''H2'', textContent = ''Overview'', offsetTop = 120, rectTop = 120\<rparr>"

definition page_twice :: document where
  "page_twice =
     \<lparr>preceding = [el_body],
      article = Some [el_overview, el_para, el_overview\<lparr>offsetTop := 700, rectTop := 700\<rparr>],
      following = []\<rparr>"

text \<open>
  The component mounted on the example page at the top of the page, where \<open>Intro\<close>
  is the active section, and the same component after the page has replaced the
  document by one without the article.
\<close>

definition mounted_example :: state where
  "mounted_example = onMounted (initial page_example 0 [])"

definition state_article_gone :: state where
  "state_article_gone = dispatch mounted_example (DomChange page_no_article)"

section \<open>Properties\<close>

subsection \<open>generateId\<close>

text \<open>
  After the white space has been replaced, \<open>trim\<close> finds none to remove: the last
  step of \<open>generateId\<close> changes nothing, whatever the text.
\<close>

lemma not_isWhiteSpace_hyphen: "\<not> isWhiteSpace CHR ''-''"
  by (simp add: isWhiteSpace_def)

lemma replaceRuns_isWhiteSpace_free:
  "\<forall>c \<in> set (replaceRuns isWhiteSpace t). \<not> isWhiteSpace c"
proof (induction "length t" arbitrary: t rule: less_induct)
  case less
  show ?case
  proof (cases t)
    case Nil
    then show ?thesis by simp
  next
    case (Cons c cs)
    have "length (dropWhile isWhiteSpace cs) < length t"
      using Cons by (simp add: less_Suc_eq_le length_dropWhile_le)
    moreover have "length cs < length t" using Cons by simp
    ultimately show ?thesis
      using less.hyps Cons not_isWhiteSpace_hyphen by auto
  qed
qed

lemma set_replaceRuns: "set (replaceRuns p t) \<subseteq> insert CHR ''-'' (set t)"
proof (induction p t rule: replaceRuns.induct)
  case (1 p)
  then show ?case by simp
next
  case (2 p c cs)
  have "set (dropWhile p cs) \<subseteq> set cs" by (simp add: set_dropWhileD subsetI)
  with 2 show ?case by (auto split: if_splits)
qed

lemma dropWhile_none: "\<forall>c \<in> set t. \<not> p c \<Longrightarrow> dropWhile p t = t"
  by (cases t) auto

lemma trim_without_white_space: "\<forall>c \<in> set t. \<not> isWhiteSpace c \<Longrightarrow> trim t = t"
  by (simp add: trim_def dropWhile_none)

lemma generateId_trim_removes_nothing:
  "generateId t =
     replaceRuns (\<lambda>c. c = CHR ''-'') (replaceRuns isWhiteSpace (stripSymbols (toLowerCase t)))"
proof -
  let ?u = "replaceRuns isWhiteSpace (stripSymbols (toLowerCase t))"
  have "\<forall>c \<in> set (replaceRuns (\<lambda>c. c = CHR ''-'') ?u). \<not> isWhiteSpace c"
    using set_replaceRuns [of "\<lambda>c. c = CHR ''-''" ?u]
      replaceRuns_isWhiteSpace_free [of "stripSymbols (toLowerCase t)"]
      not_isWhiteSpace_hyphen by auto
  then show ?thesis
    by (simp add: generateId_def trim_without_white_space)
qed

text \<open>
  Claim C2. The identifier generated from a heading text is the text in lower case,
  without the symbols, with every run of white space turned into one hyphen, and
  without hyphens at its ends; \<open>API & Usage!\<close> gives \<open>api-usage\<close>. The function
  gives \<open>api-usage\<close> there, but it keeps the hyphens at the ends: white space around
  the text \<open>Intro\<close> becomes a hyphen on each side, which the final \<open>trim\<close> does not
  remove.
\<close>

theorem generateId_keeps_edge_hyphens:
  "generateId ''API & Usage!'' = ''api-usage'' \<and> generateId '' Intro '' = ''-intro-''"
  by code_simp

subsection \<open>extractHeadings\<close>

text \<open>
  The loop visits the elements the selector matches, in tree order: the extracted
  list is the entry of each of them, and each of them has taken its identifier.
\<close>

lemma forEach_heading_eq:
  "forEach_heading els acc =
     (map (\<lambda>el. if matches_h2_h3_h4 el then assignId el else el) els,
      acc @ map entry (querySelectorAll els))"
  by (induction els arbitrary: acc) (simp_all add: querySelectorAll_def)

lemma extractHeadings_None: "article (doc s) = None \<Longrightarrow> extractHeadings s = s"
  by (simp add: extractHeadings_def)

lemma extractHeadings_Some:
  "article (doc s) = Some els \<Longrightarrow>
   extractHeadings s =
     s\<lparr>doc := (doc s)\<lparr>article :=
          Some (map (\<lambda>el. if matches_h2_h3_h4 el then assignId el else el) els)\<rparr>,
       headings := map entry (querySelectorAll els)\<rparr>"
  by (simp add: extractHeadings_def forEach_heading_eq)

lemma matches_assignId [simp]: "matches_h2_h3_h4 (assignId el) = matches_h2_h3_h4 el"
  by (simp add: assignId_def matches_h2_h3_h4_def)

lemma id_el_assignId: "id_el (assignId el) = resolveId el"
  by (simp add: assignId_def resolveId_def or_else_def)

lemma resolveId_assignId [simp]: "resolveId (assignId el) = resolveId el"
  by (simp add: assignId_def resolveId_def or_else_def)

lemma assignId_assignId [simp]: "assignId (assignId el) = assignId el"
  by (simp add: assignId_def resolveId_def or_else_def)

lemma entry_assignId [simp]: "entry (assignId el) = entry el"
  by (simp add: entry_def) (simp add: assignId_def)

lemma querySelectorAll_visited:
  "querySelectorAll (map (\<lambda>el. if matches_h2_h3_h4 el then assignId el else el) els) =
     map assignId (querySelectorAll els)"
  by (induction els) (simp_all add: querySelectorAll_def)

lemma level_of_tag:
  "parseInt (charAt ''H2'' 1) = Num 2"
  "parseInt (charAt ''H3'' 1) = Num 3"
  "parseInt (charAt ''H4'' 1) = Num 4"
  by code_simp+

lemma level_entry:
  "matches_h2_h3_h4 el \<Longrightarrow>
   level (entry el) =
     (if tagName el = ''H2'' then Num 2 else if tagName el = ''H3'' then Num 3 else Num 4)"
  using level_of_tag by (auto simp: matches_h2_h3_h4_def entry_def)

lemma text_entry: "text_h (entry el) = textContent el"
  by (simp add: entry_def or_else_def)

lemma id_entry:
  "id_h (entry el) = (if id_el el = [] then generateId (textContent el) else id_el el)"
  by (simp add: entry_def resolveId_def or_else_def)

text \<open>
  Claim C6. When the article exists, with \<open>hs\<close> its headings of level 2 to 4 in
  document order, extraction gives one entry for each of them, in the same order:
  the lists have the same length, and the entry at each position has the text of
  the heading at that position as its label and the heading's level as its depth.
  No entry has depth 1: a heading of level 1 is not among them.
\<close>

theorem extractHeadings_outline:
  assumes "article (doc s) = Some els"
  shows "let hs = filter (\<lambda>el. tagName el = ''H2'' \<or> tagName el = ''H3'' \<or> tagName el = ''H4'') els;
             out = headings (extractHeadings s)
         in length out = length hs \<and>
            (\<forall>k < length hs.
               text_h (out ! k) = textContent (hs ! k) \<and>
               level (out ! k) =
                 (if tagName (hs ! k) = ''H2'' then Num 2
                  else if tagName (hs ! k) = ''H3'' then Num 3 else Num 4)) \<and>
            (\<forall>e \<in> set out. level e \<noteq> Num 1)"
proof -
  let ?hs = "querySelectorAll els"
  have hs: "?hs = filter (\<lambda>el. tagName el = ''H2'' \<or> tagName el = ''H3'' \<or> tagName el = ''H4'') els"
    unfolding querySelectorAll_def by (rule filter_cong) (simp_all add: matches_h2_h3_h4_def)
  have out: "headings (extractHeadings s) = map entry ?hs"
    by (simp add: extractHeadings_Some [OF assms])
  have m: "\<And>el. el \<in> set ?hs \<Longrightarrow> matches_h2_h3_h4 el"
    by (simp add: querySelectorAll_def)
  have lv: "\<And>k. k < length ?hs \<Longrightarrow>
      level (entry (?hs ! k)) =
        (if tagName (?hs ! k) = ''H2'' then Num 2
         else if tagName (?hs ! k) = ''H3'' then Num 3 else Num 4)"
    using m by (simp add: level_entry)
  have no1: "\<And>e. e \<in> set (map entry ?hs) \<Longrightarrow> level e \<noteq> Num 1"
    using m by (auto simp: level_entry split: if_splits)
  show ?thesis
    unfolding Let_def out hs [symmetric]
    using lv no1 by (simp add: text_entry)
qed

theorem extractHeadings_outline_witness:
  "article (doc (initial page_example 0 [])) =
     Some [el_title, el_intro, el_para, el_setup, el_usage] \<and>
   (let hs = filter (\<lambda>el. tagName el = ''H2'' \<or> tagName el = ''H3'' \<or> tagName el = ''H4'')
               [el_title, el_intro, el_para, el_setup, el_usage];
        out = headings (extractHeadings (initial page_example 0 []))
    in length out = length hs \<and>
       (\<forall>k < length hs.
          text_h (out ! k) = textContent (hs ! k) \<and>
          level (out ! k) =
            (if tagName (hs ! k) = ''H2'' then Num 2
             else if tagName (hs ! k) = ''H3'' then Num 3 else Num 4)) \<and>
       (\<forall>e \<in> set out. level e \<noteq> Num 1)) \<and>
   headings (extractHeadings (initial page_example 0 [])) =
     [\<lparr>id_h = ''intro'', text_h = ''Intro'', level = Num 2\<rparr>,
      \<lparr>id_h = ''setup'', text_h = ''Setup'', level = Num 3\<rparr>,
      \<lparr>id_h = ''usage'', text_h = ''Usage'', level = Num 2\<rparr>]"
proof -
  have a: "article (doc (initial page_example 0 [])) =
      Some [el_title, el_intro, el_para, el_setup, el_usage]"
    by (simp add: initial_def page_example_def)
  have v: "headings (extractHeadings (initial page_example 0 [])) =
     [\<lparr>id_h = ''intro'', text_h = ''Intro'', level = Num 2\<rparr>,
      \<lparr>id_h = ''setup'', text_h = ''Setup'', level = Num 3\<rparr>,
      \<lparr>id_h = ''usage'', text_h = ''Usage'', level = Num 2\<rparr>]"
    by code_simp
  from extractHeadings_outline [OF a] a v show ?thesis by blast
qed

text \<open>
  Claim C4. The identifiers of the entries of one extraction are pairwise distinct.
  The code does not make them so: two headings without an id and with the same text
  both get the identifier generated from that text.
\<close>

theorem extractHeadings_twice_counterexample:
  "\<not> distinct (map id_h (headings (extractHeadings (initial page_twice 0 []))))"
  by code_simp

text \<open>
  Claim C4, amended. With the article present, the identifiers of the entries are,
  position by position, those of the article's headings of level 2 to 4: the id of
  the heading, or, when the heading has none, the identifier generated from its
  text. So they are pairwise distinct exactly when these values are pairwise
  distinct over the headings, and nothing disambiguates: two headings without an id
  and with the same text get the same identifier.
\<close>

theorem extractHeadings_identifiers:
  assumes "article (doc s) = Some els"
  shows "map id_h (headings (extractHeadings s)) =
           map (\<lambda>el. if id_el el = [] then generateId (textContent el) else id_el el)
               (querySelectorAll els) \<and>
         (distinct (map id_h (headings (extractHeadings s))) \<longleftrightarrow>
          distinct (map (\<lambda>el. if id_el el = [] then generateId (textContent el) else id_el el)
                        (querySelectorAll els))) \<and>
         (\<forall>j < length (querySelectorAll els). \<forall>k < length (querySelectorAll els).
            id_el (querySelectorAll els ! j) = [] \<and> id_el (querySelectorAll els ! k) = [] \<and>
            textContent (querySelectorAll els ! j) = textContent (querySelectorAll els ! k) \<longrightarrow>
            id_h (headings (extractHeadings s) ! j) = id_h (headings (extractHeadings s) ! k))"
proof -
  have out: "headings (extractHeadings s) = map entry (querySelectorAll els)"
    by (simp add: extractHeadings_Some [OF assms])
  have ids: "map id_h (headings (extractHeadings s)) =
           map (\<lambda>el. if id_el el = [] then generateId (textContent el) else id_el el)
               (querySelectorAll els)"
    by (simp add: out comp_def id_entry)
  have same: "\<forall>j < length (querySelectorAll els). \<forall>k < length (querySelectorAll els).
            id_el (querySelectorAll els ! j) = [] \<and> id_el (querySelectorAll els ! k) = [] \<and>
            textContent (querySelectorAll els ! j) = textContent (querySelectorAll els ! k) \<longrightarrow>
            id_h (headings (extractHeadings s) ! j) = id_h (headings (extractHeadings s) ! k)"
    by (simp add: out id_entry)
  have iff: "distinct (map id_h (headings (extractHeadings s))) \<longleftrightarrow>
          distinct (map (\<lambda>el. if id_el el = [] then generateId (textContent el) else id_el el)
                        (querySelectorAll els))"
    by (simp only: ids)
  show ?thesis by (rule conjI [OF ids conjI [OF iff same]])
qed

theorem extractHeadings_identifiers_witness:
  "article (doc (initial page_example 0 [])) =
     Some [el_title, el_intro, el_para, el_setup, el_usage] \<and>
   map id_h (headings (extractHeadings (initial page_example 0 []))) =
     [''intro'', ''setup'', ''usage''] \<and>
   distinct (map id_h (headings (extractHeadings (initial page_example 0 [])))) \<and>
   article (doc (initial page_twice 0 [])) =
     Some [el_overview, el_para, el_overview\<lparr>offsetTop := 700, rectTop := 700\<rparr>] \<and>
   id_h (headings (extractHeadings (initial page_twice 0 [])) ! 0) =
     id_h (headings (extractHeadings (initial page_twice 0 [])) ! 1)"
proof -
  let ?els = "[el_title, el_intro, el_para, el_setup, el_usage]"
  let ?tw = "[el_overview, el_para, el_overview\<lparr>offsetTop := 700, rectTop := 700\<rparr>]"
  have a: "article (doc (initial page_example 0 [])) = Some ?els"
    by (simp add: initial_def page_example_def)
  have v: "map (\<lambda>el. if id_el el = [] then generateId (textContent el) else id_el el)
               (querySelectorAll ?els) = [''intro'', ''setup'', ''usage'']"
    by code_simp
  have 1: "map id_h (headings (extractHeadings (initial page_example 0 []))) =
      [''intro'', ''setup'', ''usage'']"
    by (rule trans [OF extractHeadings_identifiers [OF a, THEN conjunct1] v])
  have d: "distinct (map id_h (headings (extractHeadings (initial page_example 0 []))))"
    by (simp add: 1)
  have b: "article (doc (initial page_twice 0 [])) = Some ?tw"
    by (simp add: initial_def page_twice_def)
  have q: "querySelectorAll ?tw = [el_overview, el_overview\<lparr>offsetTop := 700, rectTop := 700\<rparr>]"
    by code_simp
  have e: "id_el el_overview = [] \<and> textContent el_overview = ''Overview''"
    by (simp add: el_overview_def)
  have l: "(0::nat) < length (querySelectorAll ?tw) \<and> (1::nat) < length (querySelectorAll ?tw)"
    by (simp add: q)
  have c: "id_el (querySelectorAll ?tw ! 0) = [] \<and> id_el (querySelectorAll ?tw ! 1) = [] \<and>
      textContent (querySelectorAll ?tw ! 0) = textContent (querySelectorAll ?tw ! 1)"
    by (simp add: q e)
  note t = extractHeadings_identifiers [OF b, THEN conjunct2, THEN conjunct2, rule_format, of 0 1]
  from t l c
  have 2: "id_h (headings (extractHeadings (initial page_twice 0 [])) ! 0) =
      id_h (headings (extractHeadings (initial page_twice 0 [])) ! 1)"
    by blast
  show ?thesis using a b 1 d 2 by blast
qed

text \<open>
  Claim C5. Extraction is idempotent: a second extraction on the document the first
  one left gives the same state, so the same identifiers, because after an
  extraction every heading of the article carries the identifier of its entry.
\<close>

theorem extractHeadings_idempotent:
  "extractHeadings (extractHeadings s) = extractHeadings s \<and>
   map id_h (headings (extractHeadings (extractHeadings s))) =
     map id_h (headings (extractHeadings s)) \<and>
   (\<forall>els'. article (doc (extractHeadings s)) = Some els' \<longrightarrow>
      map id_el (querySelectorAll els') = map id_h (headings (extractHeadings s)))"
proof (cases "article (doc s)")
  case None
  then show ?thesis by (simp add: extractHeadings_None)
next
  case (Some els)
  let ?els' = "map (\<lambda>el. if matches_h2_h3_h4 el then assignId el else el) els"
  have 1: "article (doc (extractHeadings s)) = Some ?els'"
    by (simp add: extractHeadings_Some [OF Some])
  have 2: "map (\<lambda>el. if matches_h2_h3_h4 el then assignId el else el) ?els' = ?els'"
    by (induction els) simp_all
  have 3: "extractHeadings (extractHeadings s) = extractHeadings s"
    by (simp add: extractHeadings_Some [OF 1] 2 querySelectorAll_visited comp_def)
       (simp add: extractHeadings_Some [OF Some])
  have 4: "map id_el (querySelectorAll ?els') = map id_h (headings (extractHeadings s))"
    by (simp add: extractHeadings_Some [OF Some] querySelectorAll_visited comp_def
        id_el_assignId entry_def)
  show ?thesis using 1 3 4 Some by simp
qed

theorem extractHeadings_idempotent_witness:
  "article (doc (extractHeadings (initial page_example 0 []))) =
     Some [el_title, assignId el_intro, el_para, assignId el_setup, assignId el_usage] \<and>
   map id_el (querySelectorAll
     [el_title, assignId el_intro, el_para, assignId el_setup, assignId el_usage]) =
     [''intro'', ''setup'', ''usage''] \<and>
   map id_h (headings (extractHeadings (extractHeadings (initial page_example 0 [])))) =
     [''intro'', ''setup'', ''usage'']"
proof -
  let ?s = "initial page_example 0 []"
  let ?els' = "[el_title, assignId el_intro, el_para, assignId el_setup, assignId el_usage]"
  have a: "article (doc (extractHeadings ?s)) = Some ?els'" by code_simp
  have i: "map id_el (querySelectorAll ?els') = [''intro'', ''setup'', ''usage'']" by code_simp
  from extractHeadings_idempotent [of ?s] a
  have "map id_h (headings (extractHeadings (extractHeadings ?s))) =
          map id_h (headings (extractHeadings ?s))"
    and "map id_el (querySelectorAll ?els') = map id_h (headings (extractHeadings ?s))"
    by simp_all
  with a i show ?thesis by simp
qed

subsection \<open>updateActiveHeading\<close>

text \<open>
  The loop from the last heading down to the first returns the id of the last
  heading, in document order, among those at or above the given position.
\<close>

lemma scanBack_eq:
  "k \<le> length hs \<Longrightarrow>
   scanBack hs sp k =
     (let qs = filter (\<lambda>el. real_of_int (offsetTop el) \<le> sp) (take k hs)
      in if qs = [] then [] else id_el (last qs))"
proof (induction k)
  case 0
  then show ?case by simp
next
  case (Suc k)
  then have "take (Suc k) hs = take k hs @ [hs ! k]"
    by (simp add: take_Suc_conv_app_nth)
  with Suc show ?case by (simp add: Let_def)
qed

lemma find_rev:
  "find P (rev xs) = (if filter P xs = [] then None else Some (last (filter P xs)))"
  by (induction xs rule: rev_induct) simp_all

text \<open>
  Claim C3. Scanning the headings in reverse document order, the active identifier
  becomes the id of the first heading at or above the scroll offset plus the
  look-ahead, and the empty string when no heading is. The second part fails when
  the page has no article: no heading qualifies, and the function returns before
  it writes the active identifier, which stays what it was (here \<open>intro\<close>, from
  the document the component was mounted on).
\<close>

theorem updateActiveHeading_article_gone_counterexample:
  "filter (\<lambda>el. real_of_int (offsetTop el) \<le> scrollY state_article_gone + 150)
     (case article (doc state_article_gone) of None \<Rightarrow> [] | Some els \<Rightarrow> querySelectorAll els) = [] \<and>
   activeId (updateActiveHeading state_article_gone) \<noteq> []"
  by code_simp

text \<open>
  Claim C3, amended. When the article exists, the active identifier becomes the id
  of the first heading, in reverse document order, whose \<open>offsetTop\<close> is at most the
  scroll offset plus 150, which is the last such heading in document order, and
  the empty string when there is none; nothing else changes. When the article does
  not exist, the state is left as it is.
\<close>

theorem updateActiveHeading_last_qualifying:
  "(article (doc s) = None \<longrightarrow> updateActiveHeading s = s) \<and>
   (\<forall>els. article (doc s) = Some els \<longrightarrow>
      (let qualifies = (\<lambda>el. real_of_int (offsetTop el) \<le> scrollY s + 150);
           hs = querySelectorAll els
       in updateActiveHeading s =
            s\<lparr>activeId := (case find qualifies (rev hs) of None \<Rightarrow> [] | Some el \<Rightarrow> id_el el)\<rparr> \<and>
          find qualifies (rev hs) =
            (if filter qualifies hs = [] then None else Some (last (filter qualifies hs)))))"
  by (simp add: updateActiveHeading_def scanBack_eq scrollPosition_def Let_def find_rev)

theorem updateActiveHeading_last_qualifying_witness:
  "article (doc (mounted_example\<lparr>scrollY := 250\<rparr>)) =
     Some [el_title, assignId el_intro, el_para, assignId el_setup, assignId el_usage] \<and>
   activeId (updateActiveHeading (mounted_example\<lparr>scrollY := 250\<rparr>)) = ''setup'' \<and>
   article (doc state_article_gone) = None \<and>
   updateActiveHeading state_article_gone = state_article_gone"
proof -
  let ?s = "mounted_example\<lparr>scrollY := 250\<rparr>"
  let ?els = "[el_title, assignId el_intro, el_para, assignId el_setup, assignId el_usage]"
  have a: "article (doc ?s) = Some ?els" by code_simp
  have n: "article (doc state_article_gone) = None" by code_simp
  have f: "(case find (\<lambda>el. real_of_int (offsetTop el) \<le> scrollY ?s + 150)
                   (rev (querySelectorAll ?els)) of None \<Rightarrow> [] | Some el \<Rightarrow> id_el el) = ''setup''"
    by code_simp
  from updateActiveHeading_last_qualifying [of ?s] a
  have "updateActiveHeading ?s =
          ?s\<lparr>activeId := (case find (\<lambda>el. real_of_int (offsetTop el) \<le> scrollY ?s + 150)
                   (rev (querySelectorAll ?els)) of None \<Rightarrow> [] | Some el \<Rightarrow> id_el el)\<rparr>"
    by (simp add: Let_def)
  then have 1: "activeId (updateActiveHeading ?s) = ''setup''"
    using f by simp
  from updateActiveHeading_last_qualifying [of state_article_gone] n
  have 2: "updateActiveHeading state_article_gone = state_article_gone" by simp
  show ?thesis using a n 1 2 by simp
qed

subsection \<open>scrollToHeading\<close>

text \<open>
  Claim C1. The offset subtracted from the position of the target in
  \<open>scrollToHeading\<close> is the look-ahead added to the scroll offset in
  \<open>updateActiveHeading\<close>. On the example page at the top, \<open>scrollToHeading\<close>
  subtracts 100; with a look-ahead of that size no heading would be at or above the
  threshold, yet \<open>updateActiveHeading\<close> makes \<open>Intro\<close>, 120 from the top, the
  active section.
\<close>

theorem shared_offset_counterexample:
  "rectTop (assignId el_setup) + pageYOffset mounted_example
     - the (smoothScrollTarget (scrollToHeading mounted_example ''setup'')) = 100 \<and>
   filter (\<lambda>el. real_of_int (offsetTop el) \<le>
             scrollY mounted_example +
               (rectTop (assignId el_setup) + pageYOffset mounted_example
                  - the (smoothScrollTarget (scrollToHeading mounted_example ''setup''))))
     (case article (doc mounted_example) of None \<Rightarrow> [] | Some els \<Rightarrow> querySelectorAll els) = [] \<and>
   activeId (updateActiveHeading (mounted_example\<lparr>activeId := []\<rparr>)) = ''intro''"
  by code_simp

text \<open>
  Claim C1, amended. When the target exists, \<open>scrollToHeading\<close> asks for a smooth
  scroll to the position of the target minus 100. When the article exists,
  \<open>updateActiveHeading\<close> makes active the first heading, in reverse document order,
  whose \<open>offsetTop\<close> is at most the scroll offset plus 150 (none: the empty
  string). The two constants are different.
\<close>

theorem scrollToHeading_offset_100_look_ahead_150:
  "(\<forall>el. getElementById (doc s) i = Some el \<longrightarrow>
      smoothScrollTarget (scrollToHeading s i) = Some (rectTop el + pageYOffset s - 100)) \<and>
   (\<forall>els. article (doc s) = Some els \<longrightarrow>
      activeId (updateActiveHeading s) =
        (case find (\<lambda>h. real_of_int (offsetTop h) \<le> scrollY s + 150)
                (rev (querySelectorAll els)) of
           None \<Rightarrow> []
         | Some h \<Rightarrow> id_el h))"
proof -
  have nav: "\<forall>el. getElementById (doc s) i = Some el \<longrightarrow>
      smoothScrollTarget (scrollToHeading s i) = Some (rectTop el + pageYOffset s - 100)"
    by (simp add: scrollToHeading_def Let_def offset_def)
  have act: "\<forall>els. article (doc s) = Some els \<longrightarrow>
      activeId (updateActiveHeading s) =
        (case find (\<lambda>h. real_of_int (offsetTop h) \<le> scrollY s + 150)
                (rev (querySelectorAll els)) of
           None \<Rightarrow> []
         | Some h \<Rightarrow> id_el h)"
    by (simp add: updateActiveHeading_def scanBack_eq scrollPosition_def Let_def find_rev)
  from nav act show ?thesis by simp
qed

theorem scrollToHeading_offset_100_look_ahead_150_witness:
  "getElementById (doc mounted_example) ''setup'' = Some (assignId el_setup) \<and>
   smoothScrollTarget (scrollToHeading mounted_example ''setup'') = Some 300 \<and>
   article (doc (mounted_example\<lparr>scrollY := 250\<rparr>)) =
     Some [el_title, assignId el_intro, el_para, assignId el_setup, assignId el_usage] \<and>
   offsetTop (assignId el_setup) = 400 \<and>
   activeId (updateActiveHeading (mounted_example\<lparr>scrollY := 250\<rparr>)) = ''setup'' \<and>
   activeId (updateActiveHeading (mounted_example\<lparr>scrollY := 249\<rparr>)) = ''intro''"
proof -
  let ?els = "[el_title, assignId el_intro, el_para, assignId el_setup, assignId el_usage]"
  let ?s = "mounted_example\<lparr>scrollY := 250\<rparr>"
  let ?t = "mounted_example\<lparr>scrollY := 249\<rparr>"
  have h: "getElementById (doc mounted_example) ''setup'' = Some (assignId el_setup)" by code_simp
  have r: "rectTop (assignId el_setup) = 400" by code_simp
  have o: "offsetTop (assignId el_setup) = 400" by code_simp
  have y: "scrollY mounted_example = 0" by code_simp
  have a: "article (doc ?s) = Some ?els" by code_simp
  have b: "article (doc ?t) = Some ?els" by code_simp
  have f: "(case find (\<lambda>h. real_of_int (offsetTop h) \<le> scrollY ?s + 150)
                   (rev (querySelectorAll ?els)) of None \<Rightarrow> [] | Some h \<Rightarrow> id_el h) = ''setup''"
    by code_simp
  have g: "(case find (\<lambda>h. real_of_int (offsetTop h) \<le> scrollY ?t + 150)
                   (rev (querySelectorAll ?els)) of None \<Rightarrow> [] | Some h \<Rightarrow> id_el h) = ''intro''"
    by code_simp
  from scrollToHeading_offset_100_look_ahead_150 [of mounted_example "''setup''"] h r y
  have 1: "smoothScrollTarget (scrollToHeading mounted_example ''setup'') = Some 300"
    by (simp add: pageYOffset_def)
  from scrollToHeading_offset_100_look_ahead_150 [of ?s "''setup''"] a f
  have 2: "activeId (updateActiveHeading ?s) = ''setup''" by simp
  from scrollToHeading_offset_100_look_ahead_150 [of ?t "''setup''"] b g
  have 3: "activeId (updateActiveHeading ?t) = ''intro''" by simp
  show ?thesis using h a o 1 2 3 by simp
qed

text \<open>
  Claim C7. When no element has the given id, \<open>scrollToHeading\<close> returns the state
  it was given: the component, the document and the window are unchanged.
\<close>

theorem scrollToHeading_missing_target:
  "getElementById (doc s) i = None \<Longrightarrow> scrollToHeading s i = s"
  by (simp add: scrollToHeading_def)

theorem scrollToHeading_missing_target_witness:
  "getElementById (doc mounted_example) ''missing'' = None \<and>
   scrollToHeading mounted_example ''missing'' = mounted_example"
proof -
  have h: "getElementById (doc mounted_example) ''missing'' = None" by code_simp
  from scrollToHeading_missing_target [OF h] h show ?thesis by simp
qed

text \<open>
  Claim C9. When the target exists, \<open>scrollToHeading\<close> itself pushes the URL
  \<open>#\<close> followed by the identifier and makes the identifier the active one; the
  scroll offset is still the one before the call, no scroll event has been handled.
\<close>

theorem scrollToHeading_fragment_and_active:
  "getElementById (doc s) i = Some el \<Longrightarrow>
   activeId (scrollToHeading s i) = i \<and>
   history (scrollToHeading s i) = (''#'' @ i) # history s \<and>
   scrollY (scrollToHeading s i) = scrollY s"
  by (simp add: scrollToHeading_def Let_def)

theorem scrollToHeading_fragment_and_active_witness:
  "getElementById (doc mounted_example) ''setup'' = Some (assignId el_setup) \<and>
   activeId mounted_example = ''intro'' \<and>
   activeId (scrollToHeading mounted_example ''setup'') = ''setup'' \<and>
   history (scrollToHeading mounted_example ''setup'') = [''#setup'']"
proof -
  have h: "getElementById (doc mounted_example) ''setup'' = Some (assignId el_setup)" by code_simp
  have a: "activeId mounted_example = ''intro''" by code_simp
  have e: "history mounted_example = []" by code_simp
  from scrollToHeading_fragment_and_active [OF h] h a e show ?thesis by simp
qed

text \<open>
  Claim C10. Whether the target exists or not, \<open>scrollToHeading\<close> leaves the list
  of entries and the visibility flag as they are (and the document too).
\<close>

theorem scrollToHeading_frame:
  "headings (scrollToHeading s i) = headings s \<and>
   isVisible (scrollToHeading s i) = isVisible s \<and>
   doc (scrollToHeading s i) = doc s"
  by (simp add: scrollToHeading_def Let_def split: option.splits)

subsection \<open>An empty outline\<close>

text \<open>
  \<open>handleScroll\<close> never changes the entries, and with no entry it does not write
  the visibility flag; so an empty outline and a hidden surface are kept by every
  event.
\<close>

lemma headings_updateActiveHeading [simp]: "headings (updateActiveHeading s) = headings s"
  by (simp add: updateActiveHeading_def Let_def split: option.splits)

lemma isVisible_updateActiveHeading [simp]: "isVisible (updateActiveHeading s) = isVisible s"
  by (simp add: updateActiveHeading_def Let_def split: option.splits)

lemma headings_handleScroll [simp]: "headings (handleScroll s) = headings s"
  by (simp add: handleScroll_def Let_def split: option.splits list.splits)

lemma isVisible_handleScroll: "headings s = [] \<Longrightarrow> isVisible (handleScroll s) = isVisible s"
  by (simp add: handleScroll_def Let_def)

lemma dispatch_empty_outline:
  "headings s = [] \<and> \<not> isVisible s \<Longrightarrow>
   headings (dispatch s e) = [] \<and> \<not> isVisible (dispatch s e)"
  by (cases e) (simp_all add: isVisible_handleScroll)

lemma run_empty_outline:
  "headings s = [] \<and> \<not> isVisible s \<Longrightarrow>
   headings (run s evs) = [] \<and> \<not> isVisible (run s evs)"
proof (induction evs arbitrary: s)
  case Nil
  then show ?case by simp
next
  case (Cons e evs)
  from dispatch_empty_outline [OF Cons.prems] show ?case
    by (simp add: Cons.IH)
qed

text \<open>
  Claim C8. When the page has no article at mount time, or the article has no
  heading of level 2 to 4, the outline is empty after \<open>onMounted\<close> and stays empty,
  and the visibility flag is false after \<open>onMounted\<close> and after every sequence of
  scroll events (to any offset), resize events, clicks and changes of the document.
\<close>

theorem empty_outline_never_visible:
  assumes "article d = None \<or> (\<exists>els. article d = Some els \<and> querySelectorAll els = [])"
  shows "headings (run (onMounted (initial d y h)) evs) = [] \<and>
         \<not> isVisible (run (onMounted (initial d y h)) evs)"
proof -
  let ?s = "extractHeadings (initial d y h)"
  have "headings ?s = [] \<and> \<not> isVisible ?s"
    using assms
  proof
    assume "article d = None"
    then show ?thesis by (simp add: extractHeadings_def initial_def)
  next
    assume "\<exists>els. article d = Some els \<and> querySelectorAll els = []"
    then obtain els where "article (doc (initial d y h)) = Some els" "querySelectorAll els = []"
      by (auto simp: initial_def)
    then show ?thesis by (simp add: extractHeadings_Some) (simp add: initial_def)
  qed
  then have "headings (onMounted (initial d y h)) = [] \<and> \<not> isVisible (onMounted (initial d y h))"
    by (simp add: onMounted_def isVisible_handleScroll)
  then show ?thesis by (rule run_empty_outline)
qed

theorem empty_outline_never_visible_witness:
  "(article page_no_article = None \<or>
      (\<exists>els. article page_no_article = Some els \<and> querySelectorAll els = [])) \<and>
   \<not> isVisible (run (onMounted (initial page_no_article 0 [])) [Scroll 5000, Resize, Click 0]) \<and>
   (article page_no_headings = None \<or>
      (\<exists>els. article page_no_headings = Some els \<and> querySelectorAll els = [])) \<and>
   headings (run (onMounted (initial page_no_headings 0 [])) [Scroll 5000]) = [] \<and>
   \<not> isVisible (run (onMounted (initial page_no_headings 0 [])) [Scroll 5000])"
proof -
  have a: "article page_no_article = None \<or>
      (\<exists>els. article page_no_article = Some els \<and> querySelectorAll els = [])"
    by (simp add: page_no_article_def)
  have "querySelectorAll [el_title, el_para] = []" by code_simp
  then have b: "article page_no_headings = None \<or>
      (\<exists>els. article page_no_headings = Some els \<and> querySelectorAll els = [])"
    by (simp add: page_no_headings_def)
  from empty_outline_never_visible [OF a, of 0 "[]" "[Scroll 5000, Resize, Click 0]"]
    empty_outline_never_visible [OF b, of 0 "[]" "[Scroll 5000]"] a b
  show ?thesis by blast
qed

end
